theory Spec2Isabelle
  imports Complex_Main
begin

section \<open>Data model\<close>

text \<open>
  The TypeScript interfaces \<open>RFMData\<close> and \<open>RFMScore\<close>. The raw values and the scores
  are integers in every dataset the generator produces. The field \<open>id\<close> of both
  interfaces is \<open>data_id\<close> respectively \<open>score_id\<close> here, and the grid coordinates
  \<open>x\<close>, \<open>y\<close> of \<open>RFMScore\<close> are \<open>grid_x\<close>, \<open>grid_y\<close>, so that \<open>id\<close>, \<open>x\<close> and
  \<open>y\<close> stay available as ordinary names.
\<close>

record RFMData =
  data_id :: string
  recency :: int
  frequency :: int
  monetary :: int

record RFMScore =
  score_id :: string
  recencyScore :: int
  frequencyScore :: int
  monetaryScore :: int
  grid_x :: int
  grid_y :: int

text \<open>
  The result of a JavaScript division. A percentile is a quotient of two integers; the
  quotient is kept exact (a rational), and the three values IEEE division yields for a
  zero divisor are separate constructors, so that a division by zero is visible in the
  model instead of being HOL's \<open>x / 0 = 0\<close>.
\<close>

datatype number = Num rat | PosInfinity | NegInfinity | NaN

definition js_div :: "int \<Rightarrow> int \<Rightarrow> number" where
  "js_div a b =
     (if b \<noteq> 0 then Num (of_int a / of_int b)
      else if 0 < a then PosInfinity
      else if a < 0 then NegInfinity
      else NaN)"

text \<open>The comparison \<open>percentile <= t\<close> against a finite threshold.\<close>

fun js_le :: "number \<Rightarrow> rat \<Rightarrow> bool" where
  "js_le (Num p) t = (p \<le> t)"
| "js_le PosInfinity t = False"
| "js_le NegInfinity t = True"
| "js_le NaN t = False"

section \<open>Percentile scoring\<close>

text \<open>
  \<open>Array.prototype.findIndex\<close>: the index of the first element that satisfies the
  predicate, \<open>-1\<close> when there is none. The second function carries the loop counter.
\<close>

fun findIndex_from :: "('a \<Rightarrow> bool) \<Rightarrow> 'a list \<Rightarrow> int \<Rightarrow> int" where
  "findIndex_from P [] k = - 1"
| "findIndex_from P (x # xs) k = (if P x then k else findIndex_from P xs (k + 1))"

definition findIndex :: "('a \<Rightarrow> bool) \<Rightarrow> 'a list \<Rightarrow> int" where
  "findIndex P xs = findIndex_from P xs 0"

text \<open>
  \<open>calculatePercentile(value, array)\<close>. The copy \<open>[...array].sort((a, b) => a - b)\<close> is
  the ascending sort.
\<close>

definition calculatePercentile :: "'a::linorder \<Rightarrow> 'a list \<Rightarrow> number" where
  "calculatePercentile val array =
     (let sortedArray = sort array;
          index = findIndex (\<lambda>item. val \<le> item) sortedArray
      in if index = - 1 then Num 1
         else if index = 0 then Num 0
         else js_div index (int (length sortedArray) - 1))"

text \<open>
  \<open>percentileToScore(percentile, isRecency)\<close>. The thresholds \<open>0.2\<close>, \<open>0.4\<close>, \<open>0.6\<close>,
  \<open>0.8\<close> are the rationals \<open>1/5\<close> .. \<open>4/5\<close>. Rounding to the nearest double is monotone,
  and a quotient \<open>i / m\<close> of array positions that exceeds \<open>k/5\<close> does so by at least
  \<open>1 / (5 m)\<close>, far more than the rounding error of a double; so the comparison of the
  exact quotient with the exact fifth has the outcome of the comparison of the two doubles.
\<close>

definition percentileToScore :: "number \<Rightarrow> bool \<Rightarrow> int" where
  "percentileToScore percentile isRecency =
     (let score =
            (if js_le percentile (1 / 5) then 1
             else if js_le percentile (2 / 5) then 2
             else if js_le percentile (3 / 5) then 3
             else if js_le percentile (4 / 5) then 4
             else 5)
      in if isRecency then 6 - score else score)"

definition calculateRFMScores :: "RFMData list \<Rightarrow> RFMScore list" where
  "calculateRFMScores data =
     (let recencyValues = map recency data;
          frequencyValues = map frequency data;
          monetaryValues = map monetary data
      in map (\<lambda>item.
           let recencyPercentile = calculatePercentile (recency item) recencyValues;
               frequencyPercentile = calculatePercentile (frequency item) frequencyValues;
               monetaryPercentile = calculatePercentile (monetary item) monetaryValues;
               recencyScore = percentileToScore recencyPercentile True;
               frequencyScore = percentileToScore frequencyPercentile False;
               monetaryScore = percentileToScore monetaryPercentile False
           in \<lparr>score_id = data_id item,
               recencyScore = recencyScore,
               frequencyScore = frequencyScore,
               monetaryScore = monetaryScore,
               grid_x = frequencyScore,
               grid_y = monetaryScore\<rparr>) data)"

text \<open>
  The percentile rank as the specification words it: sort the values ascending, take the
  first 0-based position \<open>i\<close> whose value is at least \<open>v\<close>; the rank is 0 when \<open>i = 0\<close>,
  1 when there is no such position, and \<open>i / (n - 1)\<close> otherwise.
\<close>

definition percentile_spec :: "'a::linorder \<Rightarrow> 'a list \<Rightarrow> rat" where
  "percentile_spec v xs =
     (let s = sort xs; n = length xs
      in case List.find (\<lambda>i. v \<le> s ! i) [0..<n] of
           None \<Rightarrow> 1
         | Some i \<Rightarrow> if i = 0 then 0 else of_nat i / (of_nat n - 1))"

section \<open>Filtering\<close>

text \<open>
  The filter object \<open>{ recency?, frequency?, monetary? }\<close>: an absent field is \<open>None\<close>.
  \<open>truthy\<close> is JavaScript's test of such a field in a condition: \<open>undefined\<close> and \<open>0\<close>
  are false.
\<close>

record Filters =
  f_recency :: "int option"
  f_frequency :: "int option"
  f_monetary :: "int option"

fun truthy :: "int option \<Rightarrow> bool" where
  "truthy None = False"
| "truthy (Some n) = (n \<noteq> 0)"

definition keeps :: "Filters \<Rightarrow> RFMScore \<Rightarrow> bool" where
  "keeps filters score =
     (if truthy (f_recency filters) \<and> recencyScore score < the (f_recency filters) then False
      else if truthy (f_frequency filters) \<and> frequencyScore score < the (f_frequency filters) then False
      else if truthy (f_monetary filters) \<and> monetaryScore score < the (f_monetary filters) then False
      else True)"

definition filterRFMScores :: "RFMScore list \<Rightarrow> Filters \<Rightarrow> RFMScore list" where
  "filterRFMScores scores filters = filter (keeps filters) scores"

text \<open>A scored customer whose three scores lie in \<open>[1, 5]\<close>.\<close>

definition valid_score :: "RFMScore \<Rightarrow> bool" where
  "valid_score s \<longleftrightarrow>
     1 \<le> recencyScore s \<and> recencyScore s \<le> 5 \<and>
     1 \<le> frequencyScore s \<and> frequencyScore s \<le> 5 \<and>
     1 \<le> monetaryScore s \<and> monetaryScore s \<le> 5"

section \<open>Numbers as strings\<close>

text \<open>
  The decimal text of an integer, as \<open>Number.prototype.toString\<close> and a template
  literal produce it for the integers that occur here, and \<open>String.prototype.padStart\<close>
  with a one-character filler.
\<close>

definition digit_char :: "nat \<Rightarrow> char" where
  "digit_char d = ''0123456789'' ! d"

fun toString_nat :: "nat \<Rightarrow> string" where
  "toString_nat n =
     (if n < 10 then [digit_char n]
      else toString_nat (n div 10) @ [digit_char (n mod 10)])"

declare toString_nat.simps [simp del]

definition toString :: "int \<Rightarrow> string" where
  "toString i = (if i < 0 then CHR ''-'' # toString_nat (nat (- i)) else toString_nat (nat i))"


section \<open>Grid\<close>

text \<open>
  A grid cell \<open>{ count, items }\<close>, and the grid object as the list of its properties in
  insertion order. \<open>set_prop\<close> is the assignment \<open>grid[key] = cell\<close>: it replaces the
  value of an existing property and appends a new one.
\<close>

record GridCell =
  count :: int
  items :: "RFMScore list"

type_synonym grid = "(string \<times> GridCell) list"

fun set_prop :: "string \<Rightarrow> GridCell \<Rightarrow> grid \<Rightarrow> grid" where
  "set_prop k c [] = [(k, c)]"
| "set_prop k c ((k', c') # g) = (if k = k' then (k, c) # g else (k', c') # set_prop k c g)"

definition cell_key :: "int \<Rightarrow> int \<Rightarrow> string" where
  "cell_key a b = toString a @ ''-'' @ toString b"

text \<open>The two nested loops that initialise the 5x5 grid.\<close>

definition init_grid :: grid where
  "init_grid =
     fold (\<lambda>a g. fold (\<lambda>b g. set_prop (cell_key a b) \<lparr>count = 0, items = []\<rparr> g) [1..5] g)
       [1..5] []"

text \<open>
  The body of the \<open>forEach\<close>: a score whose key is not a property of the grid is
  skipped, otherwise the cell's count is incremented and the score is pushed to its items.
\<close>

definition add_score :: "RFMScore \<Rightarrow> grid \<Rightarrow> grid" where
  "add_score score g =
     (let key = cell_key (grid_x score) (grid_y score)
      in case map_of g key of
           None \<Rightarrow> g
         | Some cell \<Rightarrow> set_prop key \<lparr>count = count cell + 1, items = items cell @ [score]\<rparr> g)"

definition getGridData :: "RFMScore list \<Rightarrow> grid" where
  "getGridData scores = fold add_score scores init_grid"

text \<open>
  The 25 coordinate pairs in the order the initialisation visits them, the scores whose
  coordinates lie on the grid, and the cell that collects the scores at one coordinate
  pair.
\<close>

definition grid_coords :: "(int \<times> int) list" where
  "grid_coords = List.product [1..5] [1..5]"

definition in_grid :: "RFMScore \<Rightarrow> bool" where
  "in_grid s \<longleftrightarrow> 1 \<le> grid_x s \<and> grid_x s \<le> 5 \<and> 1 \<le> grid_y s \<and> grid_y s \<le> 5"

definition cell_of :: "RFMScore list \<Rightarrow> int \<Rightarrow> int \<Rightarrow> GridCell" where
  "cell_of scores a b =
     \<lparr>count = int (length (filter (\<lambda>s. grid_x s = a \<and> grid_y s = b) scores)),
      items = filter (\<lambda>s. grid_x s = a \<and> grid_y s = b) scores\<rparr>"

section \<open>Mock data generator\<close>

text \<open>
  \<open>Math.random()\<close> is a sequence \<open>rnd\<close> of rationals, one per call, read at a position
  that every call advances; the generator's state is the array built so far and that
  position. \<open>random_int r k\<close> is \<open>Math.floor(r * k)\<close>. With count an integer,
  \<open>Math.floor(count * 0.05)\<close> is \<open>count div 20\<close> and \<open>Math.floor(count * 0.1)\<close> is
  \<open>count div 10\<close>.
\<close>

definition random_int :: "rat \<Rightarrow> int \<Rightarrow> int" where
  "random_int r k = \<lfloor>r * of_int k\<rfloor>"







section \<open>The percentile rank\<close>

text \<open>
  The index \<open>findIndex\<close> returns is the number of leading elements that fail the
  predicate; on the sorted array and the predicate \<open>item >= value\<close> that is the number
  of values strictly below \<open>value\<close>.
\<close>

lemma findIndex_from_eq:
  "findIndex_from P xs k =
     (if \<exists>x \<in> set xs. P x then k + int (length (takeWhile (\<lambda>x. \<not> P x) xs)) else - 1)"
  by (induction xs arbitrary: k) auto

lemma findIndex_eq:
  "findIndex P xs =
     (if \<exists>x \<in> set xs. P x then int (length (takeWhile (\<lambda>x. \<not> P x) xs)) else - 1)"
  by (simp add: findIndex_def findIndex_from_eq)

lemma takeWhile_length_less:
  "\<exists>x \<in> set s. P x \<Longrightarrow> length (takeWhile (\<lambda>x. \<not> P x) s) < length s"
  by (induction s) auto

lemma takeWhile_before:
  "j < length (takeWhile Q s) \<Longrightarrow> Q (s ! j)"
proof (induction s arbitrary: j)
  case Nil
  then show ?case by simp
next
  case (Cons a s)
  then show ?case by (cases j) (auto split: if_splits)
qed

lemma find_first_position:
  "List.find (\<lambda>i. P (s ! i)) [0..<length s] =
     (if \<exists>x \<in> set s. P x then Some (length (takeWhile (\<lambda>x. \<not> P x) s)) else None)"
proof (cases "\<exists>x \<in> set s. P x")
  case False
  then show ?thesis by (auto simp add: find_None_iff)
next
  case True
  let ?k = "length (takeWhile (\<lambda>x. \<not> P x) s)"
  have lt: "?k < length s"
    using True by (rule takeWhile_length_less)
  have hit: "P (s ! ?k)"
    using nth_length_takeWhile [OF lt] by simp
  have before: "\<not> P (s ! j)" if "j < ?k" for j
    using that by (rule takeWhile_before)
  have "List.find (\<lambda>i. P (s ! i)) [0..<length s] = Some ?k"
    unfolding find_Some_iff
    by (rule exI [of _ ?k]) (use lt hit before in simp)
  with True show ?thesis by simp
qed

lemma sorted_takeWhile_below:
  "sorted s \<Longrightarrow> takeWhile (\<lambda>x. \<not> v \<le> x) s = filter (\<lambda>x. x < v) s"
  for v :: "'a::linorder"
proof (induction s)
  case Nil
  then show ?case by simp
next
  case (Cons a s)
  show ?case
  proof (cases "v \<le> a")
    case True
    with Cons.prems have "\<forall>x \<in> set s. \<not> x < v" by auto
    with True show ?thesis by (simp add: filter_empty_conv)
  next
    case False
    with Cons show ?thesis by (simp add: not_le)
  qed
qed

lemma below_count_sort:
  "length (takeWhile (\<lambda>x. \<not> v \<le> x) (sort xs)) = length (filter (\<lambda>x. x < v) xs)"
  for v :: "'a::linorder"
  by (simp add: sorted_takeWhile_below filter_sort)

lemma below_count_less:
  "\<exists>x \<in> set xs. v \<le> x \<Longrightarrow> length (filter (\<lambda>x. x < v) xs) < length xs"
  for v :: "'a::linorder"
  by (auto intro: length_filter_less)

lemma findIndex_sort:
  "findIndex (\<lambda>item. v \<le> item) (sort xs) =
     (if \<exists>x \<in> set xs. v \<le> x then int (length (filter (\<lambda>x. x < v) xs)) else - 1)"
  for v :: "'a::linorder"
  by (simp add: findIndex_eq below_count_sort)

lemma calculatePercentile_count:
  "calculatePercentile v xs =
     (if \<exists>x \<in> set xs. v \<le> x
      then (let k = length (filter (\<lambda>x. x < v) xs)
            in if k = 0 then Num 0 else Num (of_nat k / (of_nat (length xs) - 1)))
      else Num 1)"
  for v :: "'a::linorder"
proof (cases "\<exists>x \<in> set xs. v \<le> x")
  case False
  then show ?thesis by (simp add: calculatePercentile_def findIndex_sort)
next
  case True
  from below_count_less [OF True] have "int (length xs) - 1 \<noteq> 0 \<or> length (filter (\<lambda>x. x < v) xs) = 0"
    by linarith
  with True show ?thesis
    by (auto simp add: calculatePercentile_def findIndex_sort Let_def js_div_def)
qed

lemma percentile_spec_count:
  "percentile_spec v xs =
     (if \<exists>x \<in> set xs. v \<le> x
      then (let k = length (filter (\<lambda>x. x < v) xs)
            in if k = 0 then 0 else of_nat k / (of_nat (length xs) - 1))
      else 1)"
  for v :: "'a::linorder"
  using find_first_position [of "\<lambda>x. v \<le> x" "sort xs"]
  by (simp add: percentile_spec_def below_count_sort Let_def)

text \<open>
  Claim C1. On every non-empty array \<open>calculatePercentile\<close> returns the rank of the
  specification's reference definition: sort ascending, take the first 0-based position
  \<open>i\<close> holding a value \<open>\<ge> v\<close>; 0 if \<open>i = 0\<close>, 1 if there is none, \<open>i / (n - 1)\<close>
  otherwise.
\<close>

theorem calculatePercentile_refines_spec:
  "xs \<noteq> [] \<Longrightarrow> calculatePercentile v xs = Num (percentile_spec v xs)"
  for v :: "'a::linorder"
  by (simp add: calculatePercentile_count percentile_spec_count Let_def)

theorem calculatePercentile_refines_spec_witness:
  "[10, 20, 30, 40, 50] \<noteq> ([] :: int list)
   \<and> calculatePercentile 30 [10, 20, 30, 40, 50 :: int] = Num (1 / 2)
   \<and> percentile_spec 30 [10, 20, 30, 40, 50 :: int] = 1 / 2"
  using calculatePercentile_refines_spec [of "[10, 20, 30, 40, 50 :: int]" 30]
  by (simp add: percentile_spec_def)


lemma calculatePercentile_member:
  fixes v :: "'a::linorder"
  assumes "v \<in> set xs"
  shows "\<exists>p. calculatePercentile v xs = Num p \<and> 0 \<le> p \<and> p \<le> 1"
proof -
  have ex: "\<exists>x \<in> set xs. v \<le> x" using assms by auto
  define k where "k = length (filter (\<lambda>x. x < v) xs)"
  define n where "n = length xs"
  have "k < n" unfolding k_def n_def using ex by (rule below_count_less)
  then have "Suc k \<le> n" by simp
  then have "rat_of_nat (Suc k) \<le> rat_of_nat n" by (simp only: of_nat_le_iff)
  then have le: "rat_of_nat k \<le> rat_of_nat n - 1" by simp
  have eq: "calculatePercentile v xs = (if k = 0 then Num 0 else Num (rat_of_nat k / (rat_of_nat n - 1)))"
    using ex by (simp add: calculatePercentile_count Let_def k_def n_def)
  show ?thesis
  proof (cases "k = 0")
    case True
    with eq show ?thesis by simp
  next
    case False
    then have "0 < rat_of_nat k" by simp
    with le have pos: "0 < rat_of_nat n - 1" by linarith
    have "0 \<le> rat_of_nat k / (rat_of_nat n - 1)"
      using pos by (simp add: divide_nonneg_pos)
    moreover have "rat_of_nat k / (rat_of_nat n - 1) \<le> 1"
      using pos le by (simp add: pos_divide_le_eq)
    ultimately show ?thesis using eq False by simp
  qed
qed

text \<open>
  Claim C9. For a value that occurs in the array the search on the sorted copy succeeds,
  so the branch returning 1 for a missing index is never taken; an index of at least 1
  forces at least two values, so the divisor \<open>n - 1\<close> is not zero and the result is a
  finite number in \<open>[0, 1]\<close>; hence no division by zero occurs when scoring a dataset.
\<close>

theorem calculatePercentile_total:
  fixes v w :: "'a::linorder" and data :: "RFMData list"
  assumes "v \<in> set xs"
  shows "findIndex (\<lambda>item. v \<le> item) (sort xs) \<noteq> - 1
         \<and> 0 \<le> findIndex (\<lambda>item. v \<le> item) (sort xs)
         \<and> findIndex (\<lambda>item. v \<le> item) (sort xs) < int (length xs)
         \<and> (1 \<le> findIndex (\<lambda>item. w \<le> item) (sort ys)
              \<longrightarrow> 2 \<le> length ys \<and> int (length (sort ys)) - 1 \<noteq> 0)
         \<and> (\<exists>p. calculatePercentile v xs = Num p \<and> 0 \<le> p \<and> p \<le> 1)
         \<and> (\<forall>item \<in> set data.
               (\<exists>p. calculatePercentile (recency item) (map recency data) = Num p)
               \<and> (\<exists>p. calculatePercentile (frequency item) (map frequency data) = Num p)
               \<and> (\<exists>p. calculatePercentile (monetary item) (map monetary data) = Num p))"
proof -
  have ex: "\<exists>x \<in> set xs. v \<le> x" using assms by auto
  have a: "findIndex (\<lambda>item. v \<le> item) (sort xs) = int (length (filter (\<lambda>x. x < v) xs))"
    using ex by (simp add: findIndex_sort)
  have b: "length (filter (\<lambda>x. x < v) xs) < length xs"
    using ex by (rule below_count_less)
  have c: "2 \<le> length ys \<and> int (length (sort ys)) - 1 \<noteq> 0"
    if "1 \<le> findIndex (\<lambda>item. w \<le> item) (sort ys)"
  proof -
    from that have e: "\<exists>x \<in> set ys. w \<le> x"
      by (auto simp add: findIndex_sort split: if_splits)
    with that have "1 \<le> length (filter (\<lambda>x. x < w) ys)"
      by (simp add: findIndex_sort)
    with below_count_less [OF e] show ?thesis by simp
  qed
  have d: "\<exists>p. calculatePercentile (f item) (map f data) = Num p"
    if "item \<in> set data" for item and f :: "RFMData \<Rightarrow> int"
    using calculatePercentile_member [of "f item" "map f data"] that by auto
  show ?thesis
    using a b c d calculatePercentile_member [OF assms] by simp
qed

theorem calculatePercentile_total_witness:
  "(20::int) \<in> set [30, 20, 10]
   \<and> findIndex (\<lambda>item. (20::int) \<le> item) (sort [30, 20, 10]) = 1
   \<and> calculatePercentile (20::int) [30, 20, 10] = Num (1 / 2)"
  using calculatePercentile_total [of "20::int" "[30, 20, 10]"]
  by (simp add: calculatePercentile_def findIndex_def js_div_def)


lemma sort_first_occurrence:
  fixes v :: "'a::linorder"
  assumes "v \<in> set xs"
  defines "k \<equiv> length (filter (\<lambda>x. x < v) xs)"
  shows "k < length xs" and "sort xs ! k = v" and "\<forall>j<k. sort xs ! j < v"
proof -
  let ?s = "sort xs"
  have k: "k = length (takeWhile (\<lambda>x. \<not> v \<le> x) ?s)"
    by (simp add: k_def below_count_sort)
  have ex: "\<exists>x \<in> set ?s. v \<le> x" using assms(1) by auto
  from takeWhile_length_less [of ?s "\<lambda>x. v \<le> x", OF ex]
  have lt: "k < length ?s" by (simp add: k)
  then show "k < length xs" by simp
  have ge: "v \<le> ?s ! k"
    using nth_length_takeWhile [of "\<lambda>x. \<not> v \<le> x" ?s] lt by (simp add: k)
  have before: "?s ! j < v" if "j < k" for j
    using takeWhile_before [of j "\<lambda>x. \<not> v \<le> x" ?s] that by (simp add: k not_le)
  then show "\<forall>j<k. ?s ! j < v" by blast
  from assms(1) have "v \<in> set ?s" by simp
  then obtain i where i: "i < length ?s" "?s ! i = v"
    unfolding in_set_conv_nth by blast
  have "k \<le> i"
  proof (rule ccontr)
    assume "\<not> k \<le> i"
    then have "?s ! i < v" using before by simp
    with i show False by simp
  qed
  then have "?s ! k \<le> ?s ! i"
    using i(1) by (intro sorted_nth_mono) simp_all
  with i ge show "?s ! k = v" by simp
qed

lemma calculateRFMScores_nth:
  assumes "i < length data"
  shows "calculateRFMScores data ! i =
     \<lparr>score_id = data_id (data ! i),
      recencyScore = percentileToScore (calculatePercentile (recency (data ! i)) (map recency data)) True,
      frequencyScore = percentileToScore (calculatePercentile (frequency (data ! i)) (map frequency data)) False,
      monetaryScore = percentileToScore (calculatePercentile (monetary (data ! i)) (map monetary data)) False,
      grid_x = percentileToScore (calculatePercentile (frequency (data ! i)) (map frequency data)) False,
      grid_y = percentileToScore (calculatePercentile (monetary (data ! i)) (map monetary data)) False\<rparr>"
  using assms by (simp add: calculateRFMScores_def Let_def)

text \<open>
  Claim C6, as stated: ties are broken by the first matching occurrence, and therefore
  some dataset has two records with equal value in a dimension whose percentile ranks
  differ. The rank is a function of the value and of the array of all values of the
  dimension, so no dataset has such records.
\<close>

theorem equal_values_differ_counterexample:
  "\<not> (\<exists>(data :: RFMData list) i j. i < length data \<and> j < length data \<and> i \<noteq> j \<and>
        (recency (data ! i) = recency (data ! j) \<and>
           calculatePercentile (recency (data ! i)) (map recency data)
             \<noteq> calculatePercentile (recency (data ! j)) (map recency data)
         \<or> frequency (data ! i) = frequency (data ! j) \<and>
           calculatePercentile (frequency (data ! i)) (map frequency data)
             \<noteq> calculatePercentile (frequency (data ! j)) (map frequency data)
         \<or> monetary (data ! i) = monetary (data ! j) \<and>
           calculatePercentile (monetary (data ! i)) (map monetary data)
             \<noteq> calculatePercentile (monetary (data ! j)) (map monetary data)))"
proof
  assume "\<exists>(data :: RFMData list) i j. i < length data \<and> j < length data \<and> i \<noteq> j \<and>
        (recency (data ! i) = recency (data ! j) \<and>
           calculatePercentile (recency (data ! i)) (map recency data)
             \<noteq> calculatePercentile (recency (data ! j)) (map recency data)
         \<or> frequency (data ! i) = frequency (data ! j) \<and>
           calculatePercentile (frequency (data ! i)) (map frequency data)
             \<noteq> calculatePercentile (frequency (data ! j)) (map frequency data)
         \<or> monetary (data ! i) = monetary (data ! j) \<and>
           calculatePercentile (monetary (data ! i)) (map monetary data)
             \<noteq> calculatePercentile (monetary (data ! j)) (map monetary data))"
  then obtain data :: "RFMData list" and i j where
    "recency (data ! i) = recency (data ! j) \<and>
       calculatePercentile (recency (data ! i)) (map recency data)
         \<noteq> calculatePercentile (recency (data ! j)) (map recency data)
     \<or> frequency (data ! i) = frequency (data ! j) \<and>
       calculatePercentile (frequency (data ! i)) (map frequency data)
         \<noteq> calculatePercentile (frequency (data ! j)) (map frequency data)
     \<or> monetary (data ! i) = monetary (data ! j) \<and>
       calculatePercentile (monetary (data ! i)) (map monetary data)
         \<noteq> calculatePercentile (monetary (data ! j)) (map monetary data)"
    by blast
  then show False
    by (elim disjE conjE) simp_all
qed

text \<open>
  Claim C6, amended. For a value \<open>v\<close> of the array, with \<open>k\<close> the number of values strictly
  below \<open>v\<close>: position \<open>k\<close> of the sorted array is the first occurrence of \<open>v\<close>, it is the
  index the search returns, and the rank is 0 if \<open>k = 0\<close> and \<open>k / (n - 1)\<close> otherwise (the
  rank of the first of the tied positions, not of their midpoint). Records of a dataset
  with equal value in a dimension receive the same score in that dimension.
\<close>

theorem ties_take_first_occurrence:
  fixes v :: "'a::linorder" and data :: "RFMData list"
  assumes "v \<in> set xs"
  shows "(let k = length (filter (\<lambda>x. x < v) xs)
          in sort xs ! k = v \<and> (\<forall>j<k. sort xs ! j < v)
             \<and> findIndex (\<lambda>item. v \<le> item) (sort xs) = int k
             \<and> calculatePercentile v xs
                 = Num (if k = 0 then 0 else of_nat k / (of_nat (length xs) - 1)))
         \<and> (\<forall>i<length data. \<forall>j<length data.
               (recency (data ! i) = recency (data ! j) \<longrightarrow>
                  recencyScore (calculateRFMScores data ! i) = recencyScore (calculateRFMScores data ! j))
               \<and> (frequency (data ! i) = frequency (data ! j) \<longrightarrow>
                  frequencyScore (calculateRFMScores data ! i) = frequencyScore (calculateRFMScores data ! j))
               \<and> (monetary (data ! i) = monetary (data ! j) \<longrightarrow>
                  monetaryScore (calculateRFMScores data ! i) = monetaryScore (calculateRFMScores data ! j)))"
proof -
  have ex: "\<exists>x \<in> set xs. v \<le> x" using assms by auto
  have a: "sort xs ! length (filter (\<lambda>x. x < v) xs) = v"
    using assms by (rule sort_first_occurrence)
  have b: "\<forall>j<length (filter (\<lambda>x. x < v) xs). sort xs ! j < v"
    using assms by (rule sort_first_occurrence)
  have c: "findIndex (\<lambda>item. v \<le> item) (sort xs) = int (length (filter (\<lambda>x. x < v) xs))"
    using ex by (simp add: findIndex_sort)
  have d: "calculatePercentile v xs
           = Num (if length (filter (\<lambda>x. x < v) xs) = 0 then 0
                  else of_nat (length (filter (\<lambda>x. x < v) xs)) / (of_nat (length xs) - 1))"
    using ex by (simp add: calculatePercentile_count Let_def)
  have e: "\<forall>i<length data. \<forall>j<length data.
               (recency (data ! i) = recency (data ! j) \<longrightarrow>
                  recencyScore (calculateRFMScores data ! i) = recencyScore (calculateRFMScores data ! j))
               \<and> (frequency (data ! i) = frequency (data ! j) \<longrightarrow>
                  frequencyScore (calculateRFMScores data ! i) = frequencyScore (calculateRFMScores data ! j))
               \<and> (monetary (data ! i) = monetary (data ! j) \<longrightarrow>
                  monetaryScore (calculateRFMScores data ! i) = monetaryScore (calculateRFMScores data ! j))"
    by (simp add: calculateRFMScores_nth)
  from a b c d e show ?thesis by (simp only: Let_def)
qed

theorem ties_take_first_occurrence_witness:
  "(20::int) \<in> set [30, 20, 10, 20]
   \<and> sort [30, 20, 10, 20 :: int] ! 1 = 20
   \<and> findIndex (\<lambda>item. (20::int) \<le> item) (sort [30, 20, 10, 20]) = 1
   \<and> calculatePercentile (20::int) [30, 20, 10, 20] = Num (1 / 3)"
proof -
  have m: "(20::int) \<in> set [30, 20, 10, 20]" by simp
  have f: "filter (\<lambda>x. x < (20::int)) [30, 20, 10, 20] = [10]" by simp
  from ties_take_first_occurrence [OF m, THEN conjunct1] m show ?thesis
    unfolding f Let_def by simp
qed


section \<open>Scores\<close>

lemma percentileToScore_range:
  "1 \<le> percentileToScore p b \<and> percentileToScore p b \<le> 5"
  by (simp add: percentileToScore_def Let_def)

text \<open>
  Claim C2. For a percentile \<open>p\<close> in \<open>[0, 1]\<close> the score follows the fixed thresholds
  \<open>p \<le> 0.2 \<rightarrow> 1\<close>, \<open>p \<le> 0.4 \<rightarrow> 2\<close>, \<open>p \<le> 0.6 \<rightarrow> 3\<close>, \<open>p \<le> 0.8 \<rightarrow> 4\<close>, otherwise 5; for
  recency the result is 6 minus that score, so that a low percentile of recency gives the
  best score 5.
\<close>

theorem percentileToScore_thresholds:
  assumes "0 \<le> p" and "p \<le> 1"
  shows "percentileToScore (Num p) False =
           (if p \<le> 1 / 5 then 1 else if p \<le> 2 / 5 then 2
            else if p \<le> 3 / 5 then 3 else if p \<le> 4 / 5 then 4 else 5)
         \<and> percentileToScore (Num p) True = 6 - percentileToScore (Num p) False
         \<and> (p \<le> 1 / 5 \<longrightarrow> percentileToScore (Num p) True = 5)"
  by (simp add: percentileToScore_def Let_def)

theorem percentileToScore_thresholds_witness:
  "percentileToScore (Num (1 / 2)) False = 3 \<and> percentileToScore (Num (1 / 2)) True = 3
   \<and> percentileToScore (Num (1 / 5)) False = 1 \<and> percentileToScore (Num (1 / 5)) True = 5"
  using percentileToScore_thresholds [of "1 / 2"] percentileToScore_thresholds [of "1 / 5"]
  by simp

text \<open>
  Claim C3. On a non-empty input \<open>calculateRFMScores\<close> returns one scored customer per
  record, in the same order and with the record's id; each of the three scores is one of
  1, 2, 3, 4, 5; and \<open>x\<close> is the frequency score, \<open>y\<close> the monetary score.
\<close>

theorem calculateRFMScores_shape:
  assumes "data \<noteq> []"
  shows "length (calculateRFMScores data) = length data
         \<and> map score_id (calculateRFMScores data) = map data_id data
         \<and> (\<forall>s \<in> set (calculateRFMScores data).
               recencyScore s \<in> {1, 2, 3, 4, 5} \<and> frequencyScore s \<in> {1, 2, 3, 4, 5}
               \<and> monetaryScore s \<in> {1, 2, 3, 4, 5}
               \<and> grid_x s = frequencyScore s \<and> grid_y s = monetaryScore s)"
proof -
  have r: "percentileToScore q b \<in> {1, 2, 3, 4, 5}" for q b
    by (simp add: percentileToScore_def Let_def)
  show ?thesis
    by (auto simp add: calculateRFMScores_def Let_def r simp del: insert_iff)
qed

theorem calculateRFMScores_shape_witness:
  "[\<lparr>data_id = ''CUST_001'', recency = 15, frequency = 25, monetary = 8500\<rparr>,
    \<lparr>data_id = ''CUST_002'', recency = 120, frequency = 8, monetary = 3200\<rparr>] \<noteq> []
   \<and> calculateRFMScores
        [\<lparr>data_id = ''CUST_001'', recency = 15, frequency = 25, monetary = 8500\<rparr>,
         \<lparr>data_id = ''CUST_002'', recency = 120, frequency = 8, monetary = 3200\<rparr>]
      = [\<lparr>score_id = ''CUST_001'', recencyScore = 5, frequencyScore = 5, monetaryScore = 5,
           grid_x = 5, grid_y = 5\<rparr>,
         \<lparr>score_id = ''CUST_002'', recencyScore = 1, frequencyScore = 1, monetaryScore = 1,
           grid_x = 1, grid_y = 1\<rparr>]
   \<and> length (calculateRFMScores
        [\<lparr>data_id = ''CUST_001'', recency = 15, frequency = 25, monetary = 8500\<rparr>,
         \<lparr>data_id = ''CUST_002'', recency = 120, frequency = 8, monetary = 3200\<rparr>]) = 2"
  using calculateRFMScores_shape
    [of "[\<lparr>data_id = ''CUST_001'', recency = 15, frequency = 25, monetary = 8500\<rparr>,
          \<lparr>data_id = ''CUST_002'', recency = 120, frequency = 8, monetary = 3200\<rparr>]"]
  by (simp add: calculateRFMScores_def calculatePercentile_def findIndex_def js_div_def
      percentileToScore_def)

text \<open>
  Claim C10. Scoring the empty sequence returns the empty sequence: the mapped function
  is never called, so no percentile is computed and nothing is divided.
\<close>

theorem calculateRFMScores_empty: "calculateRFMScores [] = []"
  by (simp add: calculateRFMScores_def)

section \<open>Filtering: results\<close>

lemma length_filter_mono:
  "(\<And>x. x \<in> set xs \<Longrightarrow> P x \<Longrightarrow> Q x) \<Longrightarrow> length (filter P xs) \<le> length (filter Q xs)"
  by (induction xs) auto

text \<open>
  Claim C5. On scored customers with scores in \<open>[1, 5]\<close> and integer criteria, a record
  is kept exactly when each of its three scores is at least the corresponding threshold.
  Thresholds outside \<open>[1, 5]\<close> are taken literally: 0 keeps every record, 6 keeps none.
\<close>

theorem filterRFMScores_conjunctive:
  assumes "\<forall>s \<in> set scores. valid_score s"
  shows "filterRFMScores scores \<lparr>f_recency = Some r, f_frequency = Some f, f_monetary = Some m\<rparr>
           = filter (\<lambda>s. r \<le> recencyScore s \<and> f \<le> frequencyScore s \<and> m \<le> monetaryScore s) scores
         \<and> filterRFMScores scores \<lparr>f_recency = Some 0, f_frequency = Some 0, f_monetary = Some 0\<rparr> = scores
         \<and> filterRFMScores scores \<lparr>f_recency = Some 6, f_frequency = Some f, f_monetary = Some m\<rparr> = []
         \<and> filterRFMScores scores \<lparr>f_recency = Some r, f_frequency = Some 6, f_monetary = Some m\<rparr> = []
         \<and> filterRFMScores scores \<lparr>f_recency = Some r, f_frequency = Some f, f_monetary = Some 6\<rparr> = []"
proof -
  have v: "1 \<le> recencyScore s \<and> recencyScore s \<le> 5 \<and> 1 \<le> frequencyScore s
           \<and> frequencyScore s \<le> 5 \<and> 1 \<le> monetaryScore s \<and> monetaryScore s \<le> 5"
    if "s \<in> set scores" for s
    using assms that unfolding valid_score_def by blast
  have k: "keeps \<lparr>f_recency = Some a, f_frequency = Some b, f_monetary = Some c\<rparr> s
           \<longleftrightarrow> a \<le> recencyScore s \<and> b \<le> frequencyScore s \<and> c \<le> monetaryScore s"
    if "s \<in> set scores" for a b c s
    using v [OF that] by (auto simp add: keeps_def)
  have e: "filterRFMScores scores \<lparr>f_recency = Some a, f_frequency = Some b, f_monetary = Some c\<rparr>
           = filter (\<lambda>s. a \<le> recencyScore s \<and> b \<le> frequencyScore s \<and> c \<le> monetaryScore s) scores"
    for a b c
    unfolding filterRFMScores_def by (rule filter_cong) (simp_all add: k)
  have all: "filter (\<lambda>s. 0 \<le> recencyScore s \<and> 0 \<le> frequencyScore s \<and> 0 \<le> monetaryScore s) scores
             = scores"
    unfolding filter_id_conv
  proof
    fix s assume "s \<in> set scores"
    from v [OF this] show "0 \<le> recencyScore s \<and> 0 \<le> frequencyScore s \<and> 0 \<le> monetaryScore s"
      by simp
  qed
  have none: "filter (\<lambda>s. a \<le> recencyScore s \<and> b \<le> frequencyScore s \<and> c \<le> monetaryScore s) scores
              = []"
    if "a = 6 \<or> b = 6 \<or> c = 6" for a b c
    unfolding filter_empty_conv
  proof
    fix s assume "s \<in> set scores"
    from v [OF this] that
    show "\<not> (a \<le> recencyScore s \<and> b \<le> frequencyScore s \<and> c \<le> monetaryScore s)"
      by linarith
  qed
  show ?thesis
    unfolding e by (simp add: all none)
qed

theorem filterRFMScores_conjunctive_witness:
  "valid_score \<lparr>score_id = ''CUST_001'', recencyScore = 5, frequencyScore = 2, monetaryScore = 3,
                 grid_x = 2, grid_y = 3\<rparr>
   \<and> valid_score \<lparr>score_id = ''CUST_002'', recencyScore = 1, frequencyScore = 4, monetaryScore = 4,
                 grid_x = 4, grid_y = 4\<rparr>
   \<and> filterRFMScores
        [\<lparr>score_id = ''CUST_001'', recencyScore = 5, frequencyScore = 2, monetaryScore = 3,
           grid_x = 2, grid_y = 3\<rparr>,
         \<lparr>score_id = ''CUST_002'', recencyScore = 1, frequencyScore = 4, monetaryScore = 4,
           grid_x = 4, grid_y = 4\<rparr>]
        \<lparr>f_recency = Some 3, f_frequency = Some 2, f_monetary = Some 0\<rparr>
      = [\<lparr>score_id = ''CUST_001'', recencyScore = 5, frequencyScore = 2, monetaryScore = 3,
           grid_x = 2, grid_y = 3\<rparr>]"
  using filterRFMScores_conjunctive
    [of "[\<lparr>score_id = ''CUST_001'', recencyScore = 5, frequencyScore = 2, monetaryScore = 3,
            grid_x = 2, grid_y = 3\<rparr>,
          \<lparr>score_id = ''CUST_002'', recencyScore = 1, frequencyScore = 4, monetaryScore = 4,
            grid_x = 4, grid_y = 4\<rparr>]" 3 2 0]
  by (simp add: valid_score_def)

text \<open>
  Claim C7. Filtering is monotonic: with scores and thresholds in \<open>[1, 5]\<close>, raising one
  of the three thresholds and keeping the other two never enlarges the result.
\<close>

theorem filterRFMScores_monotonic:
  assumes "\<forall>s \<in> set scores. valid_score s"
    and "1 \<le> r" "r \<le> 5" "1 \<le> f" "f \<le> 5" "1 \<le> m" "m \<le> 5"
    and "r \<le> r'" "f \<le> f'" "m \<le> m'"
  shows "length (filterRFMScores scores \<lparr>f_recency = Some r', f_frequency = Some f, f_monetary = Some m\<rparr>)
           \<le> length (filterRFMScores scores \<lparr>f_recency = Some r, f_frequency = Some f, f_monetary = Some m\<rparr>)
         \<and> length (filterRFMScores scores \<lparr>f_recency = Some r, f_frequency = Some f', f_monetary = Some m\<rparr>)
           \<le> length (filterRFMScores scores \<lparr>f_recency = Some r, f_frequency = Some f, f_monetary = Some m\<rparr>)
         \<and> length (filterRFMScores scores \<lparr>f_recency = Some r, f_frequency = Some f, f_monetary = Some m'\<rparr>)
           \<le> length (filterRFMScores scores \<lparr>f_recency = Some r, f_frequency = Some f, f_monetary = Some m\<rparr>)"
proof -
  have k: "keeps \<lparr>f_recency = Some a, f_frequency = Some b, f_monetary = Some c\<rparr> s
           \<longleftrightarrow> a \<le> recencyScore s \<and> b \<le> frequencyScore s \<and> c \<le> monetaryScore s"
    if "1 \<le> a" "1 \<le> b" "1 \<le> c" for a b c s
    using that by (auto simp add: keeps_def)
  have mono: "length (filterRFMScores scores \<lparr>f_recency = Some a', f_frequency = Some b', f_monetary = Some c'\<rparr>)
              \<le> length (filterRFMScores scores \<lparr>f_recency = Some a, f_frequency = Some b, f_monetary = Some c\<rparr>)"
    if "1 \<le> a" "1 \<le> b" "1 \<le> c" "a \<le> a'" "b \<le> b'" "c \<le> c'" for a b c a' b' c'
    unfolding filterRFMScores_def
  proof (rule length_filter_mono)
    fix s
    assume "keeps \<lparr>f_recency = Some a', f_frequency = Some b', f_monetary = Some c'\<rparr> s"
    with that show "keeps \<lparr>f_recency = Some a, f_frequency = Some b, f_monetary = Some c\<rparr> s"
      by (simp add: k)
  qed
  from assms show ?thesis
    by (simp add: mono)
qed


theorem filterRFMScores_monotonic_witness:
  "length (filterRFMScores
        [\<lparr>score_id = ''CUST_001'', recencyScore = 5, frequencyScore = 2, monetaryScore = 3,
           grid_x = 2, grid_y = 3\<rparr>,
         \<lparr>score_id = ''CUST_002'', recencyScore = 1, frequencyScore = 4, monetaryScore = 4,
           grid_x = 4, grid_y = 4\<rparr>]
        \<lparr>f_recency = Some 2, f_frequency = Some 1, f_monetary = Some 1\<rparr>)
   \<le> length (filterRFMScores
        [\<lparr>score_id = ''CUST_001'', recencyScore = 5, frequencyScore = 2, monetaryScore = 3,
           grid_x = 2, grid_y = 3\<rparr>,
         \<lparr>score_id = ''CUST_002'', recencyScore = 1, frequencyScore = 4, monetaryScore = 4,
           grid_x = 4, grid_y = 4\<rparr>]
        \<lparr>f_recency = Some 1, f_frequency = Some 1, f_monetary = Some 1\<rparr>)"
  using filterRFMScores_monotonic
    [of "[\<lparr>score_id = ''CUST_001'', recencyScore = 5, frequencyScore = 2, monetaryScore = 3,
            grid_x = 2, grid_y = 3\<rparr>,
          \<lparr>score_id = ''CUST_002'', recencyScore = 1, frequencyScore = 4, monetaryScore = 4,
            grid_x = 4, grid_y = 4\<rparr>]" 1 1 1 2 1 1]
  by (simp add: valid_score_def)


section \<open>Decimal text: results\<close>

text \<open>
  The decimal text of a natural number is never empty, consists of digits, has no leading
  zero for a positive number, and determines the number.
\<close>

lemma digit_char_inj:
  "a < 10 \<Longrightarrow> b < 10 \<Longrightarrow> digit_char a = digit_char b \<Longrightarrow> a = b"
  unfolding digit_char_def
  by (subst (asm) nth_eq_iff_index_eq) simp_all

lemma digit_char_mem:
  "d < 10 \<Longrightarrow> digit_char d \<in> set ''0123456789''"
  unfolding digit_char_def by (rule nth_mem) simp

lemma toString_nat_digits:
  "set (toString_nat n) \<subseteq> set ''0123456789''"
proof (induction n rule: toString_nat.induct)
  case (1 n)
  show ?case
  proof (cases "n < 10")
    case True
    then show ?thesis
      using digit_char_mem [of n] by (subst toString_nat.simps) simp
  next
    case False
    have "n mod 10 < 10" by simp
    from digit_char_mem [OF this] 1 [OF False] False show ?thesis
      by (subst toString_nat.simps) simp
  qed
qed

lemma toString_nat_nonempty: "toString_nat n \<noteq> []"
  by (subst toString_nat.simps) simp

lemma toString_nat_single: "n < 10 \<Longrightarrow> toString_nat n = [digit_char n]"
  by (subst toString_nat.simps) simp

lemma toString_nat_long: "\<not> n < 10 \<Longrightarrow> 2 \<le> length (toString_nat n)"
  using toString_nat_nonempty [of "n div 10"]
  by (subst toString_nat.simps) (cases "toString_nat (n div 10)", simp_all)

lemma toString_nat_inj:
  "toString_nat n = toString_nat m \<Longrightarrow> n = m"
proof (induction n arbitrary: m rule: toString_nat.induct)
  case (1 n)
  show ?case
  proof (cases "n < 10")
    case True
    then have one: "length (toString_nat m) = 1"
      using "1.prems" [symmetric] by (simp add: toString_nat_single)
    have m: "m < 10"
      using toString_nat_long [of m] one by (cases "m < 10") simp_all
    with True "1.prems" show ?thesis
      by (simp add: toString_nat_single digit_char_inj)
  next
    case False
    then have two: "2 \<le> length (toString_nat m)"
      using "1.prems" toString_nat_long [of n] by simp
    have m: "\<not> m < 10"
    proof
      assume "m < 10"
      then have "length (toString_nat m) = 1" by (simp add: toString_nat_single)
      with two show False by simp
    qed
    have "toString_nat (n div 10) @ [digit_char (n mod 10)]
          = toString_nat (m div 10) @ [digit_char (m mod 10)]"
      using "1.prems" False m by (subst (asm) (1 2) toString_nat.simps) simp
    then have a: "toString_nat (n div 10) = toString_nat (m div 10)"
      and b: "digit_char (n mod 10) = digit_char (m mod 10)" by simp_all
    from "1.IH" [OF False a] have "n div 10 = m div 10" .
    moreover from b have "n mod 10 = m mod 10" by (rule digit_char_inj [rotated 2]) simp_all
    ultimately show ?thesis by (metis div_mult_mod_eq)
  qed
qed


lemma minus_not_digit: "CHR ''-'' \<notin> set (toString_nat n)"
  using toString_nat_digits [of n] by auto

lemma toString_nonempty: "toString i \<noteq> []"
  by (simp add: toString_def toString_nat_nonempty)

lemma toString_digit:
  assumes "0 \<le> a" and "a < 10"
  shows "toString a = [digit_char (nat a)]"
  using assms by (simp add: toString_def toString_nat_single)

lemma toString_single_digit:
  assumes "toString i = [digit_char d]" and "d < 10"
  shows "i = int d"
proof (cases "i < 0")
  case True
  with assms(1) have "CHR ''-'' = digit_char d" by (simp add: toString_def)
  with digit_char_mem [OF assms(2)] show ?thesis by auto
next
  case False
  with assms have "toString_nat (nat i) = toString_nat d"
    by (simp add: toString_def toString_nat_single)
  then have "nat i = d" by (rule toString_nat_inj)
  with False show ?thesis by simp
qed

lemma cell_key_on_grid:
  assumes "cell_key i j = cell_key a b"
    and "1 \<le> a" "a \<le> 5" "1 \<le> b" "b \<le> 5"
  shows "i = a \<and> j = b"
proof -
  let ?da = "digit_char (nat a)" and ?db = "digit_char (nat b)"
  have da: "nat a < 10" and db: "nat b < 10" using assms by simp_all
  have nm: "?db \<noteq> CHR ''-''" using digit_char_mem [OF db] by auto
  have eq: "toString i @ CHR ''-'' # toString j = [?da, CHR ''-'', ?db]"
    using assms by (simp add: cell_key_def toString_digit)
  have "toString i = [?da] \<and> toString j = [?db]"
  proof (cases "toString i")
    case Nil
    then show ?thesis using toString_nonempty by blast
  next
    case (Cons c rest)
    show ?thesis
    proof (cases rest)
      case Nil
      with Cons eq show ?thesis by simp
    next
      case (Cons c' rest')
      with \<open>toString i = c # rest\<close> eq nm show ?thesis
        by (cases rest') simp_all
    qed
  qed
  with toString_single_digit [of i "nat a"] toString_single_digit [of j "nat b"] da db assms
  show ?thesis by simp
qed


section \<open>Grid: results\<close>

text \<open>
  The grid after any number of scores is the list of the 25 keys, each with the cell of
  the scores that carry its coordinates; a score off the grid changes nothing.
\<close>

lemma upto_1_5: "[1..5] = [1, 2, 3, 4, 5 :: int]"
  by (simp add: upto_rec1)

lemma set_grid_coords: "set grid_coords = {1..5} \<times> {1..5}"
  by (simp add: grid_coords_def)

lemma distinct_grid_coords: "distinct grid_coords"
  by (simp add: grid_coords_def distinct_product)

lemma cell_key_inj_on_grid: "inj_on (\<lambda>(a, b). cell_key a b) (set grid_coords)"
  unfolding set_grid_coords
  by (rule inj_onI) (auto dest: cell_key_on_grid)

lemma init_grid_closed:
  "init_grid = map (\<lambda>(a, b). (cell_key a b, cell_of [] a b)) grid_coords"
  by (simp add: init_grid_def grid_coords_def cell_of_def cell_key_def toString_def
      toString_nat_single digit_char_def upto_1_5)

lemma map_of_keyed:
  "inj_on kf (set ps) \<Longrightarrow> p0 \<in> set ps \<Longrightarrow> map_of (map (\<lambda>p. (kf p, vf p)) ps) (kf p0) = Some (vf p0)"
  by (induction ps) (auto simp add: inj_on_def)

lemma map_of_absent:
  "k \<notin> kf ` set ps \<Longrightarrow> map_of (map (\<lambda>p. (kf p, vf p)) ps) k = None"
  by (induction ps) auto

lemma set_prop_keyed:
  "inj_on kf (set ps) \<Longrightarrow> distinct ps \<Longrightarrow> p0 \<in> set ps \<Longrightarrow>
   set_prop (kf p0) c (map (\<lambda>p. (kf p, vf p)) ps) = map (\<lambda>p. (kf p, if p = p0 then c else vf p)) ps"
proof (induction ps)
  case Nil
  then show ?case by simp
next
  case (Cons p ps)
  show ?case
  proof (cases "p = p0")
    case True
    with Cons.prems have "p0 \<notin> set ps" by simp
    then have "map (\<lambda>p. (kf p, if p = p0 then c else vf p)) ps = map (\<lambda>p. (kf p, vf p)) ps"
      by (intro map_cong) auto
    with True show ?thesis by simp
  next
    case False
    with Cons.prems have "kf p0 \<noteq> kf p" and "p0 \<in> set ps" and "inj_on kf (set ps)" and "distinct ps"
      by (auto simp add: inj_on_def)
    with Cons.IH False show ?thesis by simp
  qed
qed

lemma add_score_on_grid:
  assumes "in_grid x"
  shows "add_score x (map (\<lambda>(a, b). (cell_key a b, cell_of xs a b)) grid_coords)
         = map (\<lambda>(a, b). (cell_key a b, cell_of (xs @ [x]) a b)) grid_coords"
proof -
  let ?kf = "\<lambda>p :: int \<times> int. cell_key (fst p) (snd p)"
  let ?vf = "\<lambda>p :: int \<times> int. cell_of xs (fst p) (snd p)"
  let ?p0 = "(grid_x x, grid_y x)"
  have g: "map (\<lambda>(a, b). (cell_key a b, cell_of ys a b)) grid_coords
           = map (\<lambda>p. (?kf p, cell_of ys (fst p) (snd p))) grid_coords" for ys
    by (simp add: case_prod_beta)
  have inj: "inj_on ?kf (set grid_coords)"
    using cell_key_inj_on_grid by (simp add: case_prod_beta cong: inj_on_cong)
  have mem: "?p0 \<in> set grid_coords"
    using assms by (simp add: set_grid_coords in_grid_def)
  have look: "map_of (map (\<lambda>p. (?kf p, ?vf p)) grid_coords) (cell_key (grid_x x) (grid_y x))
              = Some (?vf ?p0)"
    using map_of_keyed [OF inj mem, of ?vf] by simp
  have upd: "set_prop (cell_key (grid_x x) (grid_y x)) c (map (\<lambda>p. (?kf p, ?vf p)) grid_coords)
             = map (\<lambda>p. (?kf p, if p = ?p0 then c else ?vf p)) grid_coords" for c
    using set_prop_keyed [OF inj distinct_grid_coords mem, of c ?vf] by simp
  have "add_score x (map (\<lambda>p. (?kf p, ?vf p)) grid_coords)
        = map (\<lambda>p. (?kf p, cell_of (xs @ [x]) (fst p) (snd p))) grid_coords"
    unfolding add_score_def Let_def look option.case upd
    by (rule map_cong) (auto simp add: cell_of_def)
  then show ?thesis by (simp only: g)
qed

lemma add_score_off_grid:
  assumes "\<not> in_grid x"
  shows "add_score x (map (\<lambda>(a, b). (cell_key a b, cell_of xs a b)) grid_coords)
         = map (\<lambda>(a, b). (cell_key a b, cell_of (xs @ [x]) a b)) grid_coords"
proof -
  let ?kf = "\<lambda>p :: int \<times> int. cell_key (fst p) (snd p)"
  let ?vf = "\<lambda>p :: int \<times> int. cell_of xs (fst p) (snd p)"
  have g: "map (\<lambda>(a, b). (cell_key a b, cell_of ys a b)) grid_coords
           = map (\<lambda>p. (?kf p, cell_of ys (fst p) (snd p))) grid_coords" for ys
    by (simp add: case_prod_beta)
  have "cell_key (grid_x x) (grid_y x) \<notin> ?kf ` set grid_coords"
  proof
    assume "cell_key (grid_x x) (grid_y x) \<in> ?kf ` set grid_coords"
    then obtain a b where "cell_key (grid_x x) (grid_y x) = cell_key a b"
      and "1 \<le> a" "a \<le> 5" "1 \<le> b" "b \<le> 5"
      by (auto simp add: set_grid_coords)
    from cell_key_on_grid [OF this] this(2-) assms show False
      by (simp add: in_grid_def)
  qed
  then have look: "map_of (map (\<lambda>p. (?kf p, ?vf p)) grid_coords) (cell_key (grid_x x) (grid_y x)) = None"
    by (rule map_of_absent)
  have same: "cell_of (xs @ [x]) (fst p) (snd p) = cell_of xs (fst p) (snd p)"
    if "p \<in> set grid_coords" for p
    using that assms by (auto simp add: cell_of_def set_grid_coords in_grid_def)
  have "add_score x (map (\<lambda>p. (?kf p, ?vf p)) grid_coords)
        = map (\<lambda>p. (?kf p, cell_of (xs @ [x]) (fst p) (snd p))) grid_coords"
    unfolding add_score_def Let_def look option.case
    by (rule map_cong) (simp_all add: same)
  then show ?thesis by (simp only: g)
qed

lemma getGridData_closed:
  "getGridData scores = map (\<lambda>(a, b). (cell_key a b, cell_of scores a b)) grid_coords"
proof (induction scores rule: rev_induct)
  case Nil
  then show ?case by (simp add: getGridData_def init_grid_closed)
next
  case (snoc x xs)
  have "getGridData (xs @ [x]) = add_score x (getGridData xs)"
    by (simp add: getGridData_def)
  with snoc show ?case
    by (cases "in_grid x") (simp_all add: add_score_on_grid add_score_off_grid)
qed

lemma grid_keys:
  "map (\<lambda>(a, b). cell_key a b) grid_coords =
     [''1-1'', ''1-2'', ''1-3'', ''1-4'', ''1-5'',
      ''2-1'', ''2-2'', ''2-3'', ''2-4'', ''2-5'',
      ''3-1'', ''3-2'', ''3-3'', ''3-4'', ''3-5'',
      ''4-1'', ''4-2'', ''4-3'', ''4-4'', ''4-5'',
      ''5-1'', ''5-2'', ''5-3'', ''5-4'', ''5-5'']"
  by (simp add: grid_coords_def cell_key_def toString_def toString_nat_single digit_char_def
      upto_1_5)

lemma count_partition:
  assumes "distinct ps" and "\<forall>s \<in> set xs. g s \<in> set ps"
  shows "(\<Sum>p\<leftarrow>ps. int (length (filter (\<lambda>s. g s = p) xs))) = int (length xs)"
  using assms(2)
proof (induction xs)
  case Nil
  then show ?case by simp
next
  case (Cons x xs)
  have one: "(\<Sum>p\<leftarrow>ps. if g x = p then 1 else 0) = (1::int)"
    using assms(1) Cons.prems by (simp add: sum_list_distinct_conv_sum_set)
  have "(\<Sum>p\<leftarrow>ps. int (length (filter (\<lambda>s. g s = p) (x # xs))))
        = (\<Sum>p\<leftarrow>ps. (if g x = p then 1 else 0) + int (length (filter (\<lambda>s. g s = p) xs)))"
    by (rule arg_cong [where f = sum_list], rule map_cong) simp_all
  also have "\<dots> = (\<Sum>p\<leftarrow>ps. if g x = p then 1 else 0)
                   + (\<Sum>p\<leftarrow>ps. int (length (filter (\<lambda>s. g s = p) xs)))"
    by (simp add: sum_list_addf)
  finally show ?case using one Cons by simp
qed


lemma map_of_getGridData:
  assumes "1 \<le> a" "a \<le> 5" "1 \<le> b" "b \<le> 5"
  shows "map_of (getGridData scores) (cell_key a b) = Some (cell_of scores a b)"
proof -
  let ?kf = "\<lambda>p :: int \<times> int. cell_key (fst p) (snd p)"
  have inj: "inj_on ?kf (set grid_coords)"
    using cell_key_inj_on_grid by (simp add: case_prod_beta cong: inj_on_cong)
  have mem: "(a, b) \<in> set grid_coords"
    using assms by (simp add: set_grid_coords)
  have g: "getGridData scores = map (\<lambda>p. (?kf p, cell_of scores (fst p) (snd p))) grid_coords"
    by (simp add: getGridData_closed case_prod_beta)
  from map_of_keyed [OF inj mem, of "\<lambda>p. cell_of scores (fst p) (snd p)"]
  show ?thesis unfolding g by simp
qed

lemma cell_of_filter_in_grid:
  assumes "1 \<le> a" "a \<le> 5" "1 \<le> b" "b \<le> 5"
  shows "cell_of (filter in_grid scores) a b = cell_of scores a b"
proof -
  have "filter (\<lambda>s. grid_x s = a \<and> grid_y s = b) (filter in_grid scores)
        = filter (\<lambda>s. grid_x s = a \<and> grid_y s = b) scores"
    unfolding filter_filter using assms
    by (intro filter_cong) (auto simp add: in_grid_def)
  then show ?thesis by (simp add: cell_of_def)
qed

lemma getGridData_drops:
  "getGridData (filter in_grid scores) = getGridData scores"
  unfolding getGridData_closed
  by (rule map_cong) (auto simp add: set_grid_coords cell_of_filter_in_grid)

lemma getGridData_count_sum:
  assumes "\<forall>s \<in> set scores. in_grid s"
  shows "(\<Sum>c\<leftarrow>map snd (getGridData scores). count c) = int (length scores)"
proof -
  have mem: "\<forall>s \<in> set scores. (grid_x s, grid_y s) \<in> set grid_coords"
    using assms by (simp add: set_grid_coords in_grid_def)
  have "(\<Sum>c\<leftarrow>map snd (getGridData scores). count c)
        = (\<Sum>p\<leftarrow>grid_coords. int (length (filter (\<lambda>s. (grid_x s, grid_y s) = p) scores)))"
    unfolding getGridData_closed
    by (simp add: comp_def case_prod_beta cell_of_def prod_eq_iff)
  also have "\<dots> = int (length scores)"
    using distinct_grid_coords mem by (rule count_partition)
  finally show ?thesis .
qed

text \<open>
  Claim C4. The grid has exactly the 25 keys \<open>x-y\<close> for \<open>x, y\<close> in \<open>[1, 5]\<close>, whatever
  the input; the cell at \<open>x-y\<close> holds, in input order, the scores with these coordinates
  and their number; scores off the grid are dropped without effect; and when every score
  is on the grid the counts add up to the length of the input and each score is in the
  items of its own cell only.
\<close>

theorem getGridData_partition:
  "map fst (getGridData scores) =
     [''1-1'', ''1-2'', ''1-3'', ''1-4'', ''1-5'',
      ''2-1'', ''2-2'', ''2-3'', ''2-4'', ''2-5'',
      ''3-1'', ''3-2'', ''3-3'', ''3-4'', ''3-5'',
      ''4-1'', ''4-2'', ''4-3'', ''4-4'', ''4-5'',
      ''5-1'', ''5-2'', ''5-3'', ''5-4'', ''5-5'']
   \<and> (\<forall>a \<in> {1..5}. \<forall>b \<in> {1..5}.
         map_of (getGridData scores) (cell_key a b) =
           Some \<lparr>count = int (length (filter (\<lambda>s. grid_x s = a \<and> grid_y s = b) scores)),
                 items = filter (\<lambda>s. grid_x s = a \<and> grid_y s = b) scores\<rparr>)
   \<and> getGridData scores = getGridData (filter in_grid scores)
   \<and> ((\<forall>s \<in> set scores. in_grid s) \<longrightarrow>
         (\<Sum>c\<leftarrow>map snd (getGridData scores). count c) = int (length scores)
         \<and> (\<forall>s \<in> set scores. \<forall>a \<in> {1..5}. \<forall>b \<in> {1..5}.
               s \<in> set (items (the (map_of (getGridData scores) (cell_key a b))))
               \<longleftrightarrow> grid_x s = a \<and> grid_y s = b))"
proof -
  have keys: "map fst (getGridData scores) =
     [''1-1'', ''1-2'', ''1-3'', ''1-4'', ''1-5'',
      ''2-1'', ''2-2'', ''2-3'', ''2-4'', ''2-5'',
      ''3-1'', ''3-2'', ''3-3'', ''3-4'', ''3-5'',
      ''4-1'', ''4-2'', ''4-3'', ''4-4'', ''4-5'',
      ''5-1'', ''5-2'', ''5-3'', ''5-4'', ''5-5'']"
    unfolding grid_keys [symmetric] getGridData_closed
    by (simp add: comp_def case_prod_beta)
  have cells: "\<forall>a \<in> {1..5}. \<forall>b \<in> {1..5}.
         map_of (getGridData scores) (cell_key a b) =
           Some \<lparr>count = int (length (filter (\<lambda>s. grid_x s = a \<and> grid_y s = b) scores)),
                 items = filter (\<lambda>s. grid_x s = a \<and> grid_y s = b) scores\<rparr>"
    by (simp add: map_of_getGridData cell_of_def)
  have drops: "getGridData scores = getGridData (filter in_grid scores)"
    by (simp add: getGridData_drops)
  have part: "(\<Sum>c\<leftarrow>map snd (getGridData scores). count c) = int (length scores)"
    if "\<forall>s \<in> set scores. in_grid s"
    using that by (rule getGridData_count_sum)
  have once: "\<forall>s \<in> set scores. \<forall>a \<in> {1..5}. \<forall>b \<in> {1..5}.
               s \<in> set (items (the (map_of (getGridData scores) (cell_key a b))))
               \<longleftrightarrow> grid_x s = a \<and> grid_y s = b"
    by (simp add: map_of_getGridData cell_of_def)
  from keys cells drops part once show ?thesis by blast
qed

theorem getGridData_partition_witness:
  "map_of (getGridData
      [\<lparr>score_id = ''CUST_001'', recencyScore = 5, frequencyScore = 2, monetaryScore = 3,
         grid_x = 2, grid_y = 3\<rparr>,
       \<lparr>score_id = ''CUST_002'', recencyScore = 1, frequencyScore = 0, monetaryScore = 7,
         grid_x = 0, grid_y = 7\<rparr>]) ''2-3''
    = Some \<lparr>count = 1,
            items = [\<lparr>score_id = ''CUST_001'', recencyScore = 5, frequencyScore = 2,
                      monetaryScore = 3, grid_x = 2, grid_y = 3\<rparr>]\<rparr>
   \<and> in_grid \<lparr>score_id = ''CUST_001'', recencyScore = 5, frequencyScore = 2, monetaryScore = 3,
         grid_x = 2, grid_y = 3\<rparr>
   \<and> (\<Sum>c\<leftarrow>map snd (getGridData
        [\<lparr>score_id = ''CUST_001'', recencyScore = 5, frequencyScore = 2, monetaryScore = 3,
           grid_x = 2, grid_y = 3\<rparr>]). count c) = 1"
proof -
  let ?s1 = "\<lparr>score_id = ''CUST_001'', recencyScore = 5, frequencyScore = 2, monetaryScore = 3,
         grid_x = 2, grid_y = 3\<rparr>"
  let ?s2 = "\<lparr>score_id = ''CUST_002'', recencyScore = 1, frequencyScore = 0, monetaryScore = 7,
         grid_x = 0, grid_y = 7\<rparr>"
  have k: "cell_key 2 3 = ''2-3''"
    by (simp add: cell_key_def toString_def toString_nat_single digit_char_def)
  have g: "in_grid ?s1" by (simp add: in_grid_def)
  from getGridData_partition [of "[?s1, ?s2]", THEN conjunct2, THEN conjunct1, rule_format, of 2 3]
  have a: "map_of (getGridData [?s1, ?s2]) ''2-3'' = Some \<lparr>count = 1, items = [?s1]\<rparr>"
    by (simp add: k)
  from getGridData_partition [of "[?s1]"] g
  have b: "(\<Sum>c\<leftarrow>map snd (getGridData [?s1]). count c) = 1"
    by simp
  from a g b show ?thesis by simp
qed


section \<open>Mock data generator: results\<close>

lemma random_int_bounds:
  assumes "0 \<le> r" and "r < 1" and "0 < k"
  shows "0 \<le> random_int r k \<and> random_int r k < k"
proof -
  have "0 \<le> r * of_int k" using assms by simp
  moreover have "r * of_int k < of_int k" using assms by simp
  ultimately show ?thesis
    by (simp add: random_int_def floor_less_iff)
qed

lemma random_index_in_range:
  assumes "0 \<le> r" and "r < 1" and "data \<noteq> []"
  shows "nat (random_int r (int (length data))) < length data"
proof -
  have "0 < int (length data)" using assms(3) by simp
  from random_int_bounds [OF assms(1,2) this] show ?thesis by (simp add: nat_less_iff)
qed














end
